theory Spec2Isabelle
  imports Main "HOL-Library.AList"
begin

section \<open>Python values: dictionaries and exceptions\<close>

text \<open>
  The builder of \<^verbatim>\<open>qpr.py\<close> raises two kinds of exception: \<^verbatim>\<open>ValueError\<close> with a
  message (the two boundary guards and the type mismatch) and \<^verbatim>\<open>KeyError\<close> with the
  missing key (every failed subscript \<^verbatim>\<open>d[k]\<close>: an absent node, an absent node
  attribute, an absent operation identifier, an absent port).
\<close>

datatype error = ValueError string | KeyError string

text \<open>
  A Python \<^verbatim>\<open>dict\<close> with string keys is an association list in insertion order,
  read with \<^const>\<open>map_of\<close>; \<^verbatim>\<open>d[k]\<close> raises \<^verbatim>\<open>KeyError(k)\<close> on an absent key.
\<close>

type_synonym 'v dict = "(string \<times> 'v) list"

definition getitem :: "'v dict \<Rightarrow> string \<Rightarrow> error + 'v" where
  "getitem d k = (case map_of d k of None \<Rightarrow> Inl (KeyError k) | Some v \<Rightarrow> Inr v)"

text \<open>Sequencing of two steps of which the first may raise.\<close>

definition bind_err :: "error + 'a \<Rightarrow> ('a \<Rightarrow> error + 'b) \<Rightarrow> error + 'b" where
  "bind_err m f = (case m of Inl e \<Rightarrow> Inl e | Inr x \<Rightarrow> f x)"

text \<open>\<^verbatim>\<open>d.update(attr)\<close>: the pairs of \<^verbatim>\<open>attr\<close> are stored one after the other.\<close>

definition dict_update :: "'v dict \<Rightarrow> 'v dict \<Rightarrow> 'v dict" where
  "dict_update attr d = fold (\<lambda>(k, v). AList.update k v) attr d"

section \<open>Signatures and the table of operations\<close>

record Sig =
  in_types :: "string dict"
  out_types :: "string dict"

text \<open>
  The module-level table \<^verbatim>\<open>fn_types\<close>. The operations below read the table they are
  given as their first argument \<open>reg\<close>; the source always reads this one.
\<close>

definition fn_types :: "Sig dict" where
  "fn_types =
     [(''H_gate'', \<lparr>in_types = [(''q'', ''Qubit'')], out_types = [(''q'', ''Qubit'')]\<rparr>),
      (''CX_gate'', \<lparr>in_types = [(''ctl'', ''Qubit''), (''tgt'', ''Qubit'')],
                     out_types = [(''ctl'', ''Qubit''), (''tgt'', ''Qubit'')]\<rparr>)]"

section \<open>The multigraph store\<close>

text \<open>
  \<^verbatim>\<open>networkx.MultiDiGraph\<close>, as far as the builder uses it: a dictionary from node name
  to the node's attribute dictionary, and the edges with their three attributes. The
  edges are kept as a list in insertion order; parallel edges are separate entries.
\<close>

record Edge =
  src :: string
  tgt :: string
  src_port :: string
  tgt_port :: string
  datatype_attr :: string

record MultiDiGraph =
  nodes :: "string dict dict"
  edges :: "Edge list"

definition nx_empty :: MultiDiGraph where
  "nx_empty = \<lparr>nodes = [], edges = []\<rparr>"

text \<open>
  \<^verbatim>\<open>G.add_node(n, **attr)\<close>: a new node gets the attributes; for a node that is already
  there the attributes are merged into the ones it has. It never raises.
\<close>

definition nx_add_node :: "string \<Rightarrow> string dict \<Rightarrow> MultiDiGraph \<Rightarrow> MultiDiGraph" where
  "nx_add_node n attr g =
     (if n \<notin> fst ` set (nodes g)
      then g\<lparr>nodes := nodes g @ [(n, dict_update attr [])]\<rparr>
      else g\<lparr>nodes := AList.map_entry n (dict_update attr) (nodes g)\<rparr>)"

text \<open>
  \<^verbatim>\<open>G.add_edge(u, v, **attr)\<close>: an endpoint that is not a node yet is created with no
  attributes, then one new edge is stored (a multigraph never merges parallel edges).
\<close>

definition nx_touch :: "string \<Rightarrow> MultiDiGraph \<Rightarrow> MultiDiGraph" where
  "nx_touch n g = (if n \<notin> fst ` set (nodes g) then g\<lparr>nodes := nodes g @ [(n, [])]\<rparr> else g)"

definition nx_add_edge :: "Edge \<Rightarrow> MultiDiGraph \<Rightarrow> MultiDiGraph" where
  "nx_add_edge e g =
     (let g' = nx_touch (tgt e) (nx_touch (src e) g) in g'\<lparr>edges := edges g' @ [e]\<rparr>)"

text \<open>\<^verbatim>\<open>G.nodes[n][k]\<close>: two subscripts, each of which may raise.\<close>

definition node_attr :: "MultiDiGraph \<Rightarrow> string \<Rightarrow> string \<Rightarrow> error + string" where
  "node_attr g n k = bind_err (getitem (nodes g) n) (\<lambda>a. getitem a k)"

text \<open>
  Iterating \<^verbatim>\<open>G.edges\<close> walks the adjacency structure: the nodes in insertion order,
  for each its successors in the order they were first linked, for each of those the
  parallel edges in insertion order.
\<close>

definition first_occ :: "'a list \<Rightarrow> 'a list" where
  "first_occ xs = rev (remdups (rev xs))"

definition nx_edges :: "MultiDiGraph \<Rightarrow> Edge list" where
  "nx_edges g =
     concat (map (\<lambda>u.
       concat (map (\<lambda>v. filter (\<lambda>e. src e = u \<and> tgt e = v) (edges g))
                   (first_occ (map tgt (filter (\<lambda>e. src e = u) (edges g))))))
       (map fst (nodes g)))"

section \<open>The builder \<^verbatim>\<open>QFn\<close>\<close>

record QFn =
  name :: string
  sig :: Sig
  G :: MultiDiGraph

text \<open>\<^verbatim>\<open>QFn.__init__\<close>: an empty graph with the two boundary nodes.\<close>

definition QFn_init :: "string \<Rightarrow> Sig \<Rightarrow> QFn" where
  "QFn_init nm sg =
     \<lparr>name = nm, sig = sg,
      G = nx_add_node ''fin'' [(''label'', '''')]
            (nx_add_node ''init'' [(''label'', '''')] nx_empty)\<rparr>"

text \<open>
  Every method takes the builder and returns what the call did (\<open>Inl\<close> the exception
  raised, \<open>Inr\<close> the value returned) together with the builder as the call left it.
\<close>

definition add_node :: "string \<Rightarrow> string \<Rightarrow> string \<Rightarrow> QFn \<Rightarrow> (error + unit) \<times> QFn" where
  "add_node n fnid label self =
     (Inr (), self\<lparr>G := nx_add_node n [(''fnid'', fnid), (''label'', label)] (G self)\<rparr>)"

definition type_mismatch :: "string \<Rightarrow> string \<Rightarrow> error" where
  "type_mismatch src_datatype tgt_datatype =
     ValueError (''Type mismatch: '' @ src_datatype @ '' != '' @ tgt_datatype)"

text \<open>\<^verbatim>\<open>fn_types[fnid].out_types[port]\<close> and \<^verbatim>\<open>fn_types[fnid].in_types[port]\<close>.\<close>

definition out_type :: "Sig dict \<Rightarrow> string \<Rightarrow> string \<Rightarrow> error + string" where
  "out_type reg fnid port = bind_err (getitem reg fnid) (\<lambda>s. getitem (out_types s) port)"

definition in_type :: "Sig dict \<Rightarrow> string \<Rightarrow> string \<Rightarrow> error + string" where
  "in_type reg fnid port = bind_err (getitem reg fnid) (\<lambda>s. getitem (in_types s) port)"

text \<open>The comparison that closes each of the three edge methods.\<close>

definition agree :: "string \<Rightarrow> string \<Rightarrow> error + string" where
  "agree src_datatype tgt_datatype =
     (if src_datatype \<noteq> tgt_datatype then Inl (type_mismatch src_datatype tgt_datatype)
      else Inr src_datatype)"

text \<open>
  The reads of \<^verbatim>\<open>add_edge\<close> (lines 32 to 42), in the order the source makes them; the
  result is the data type of the edge to store.
\<close>

definition add_edge_type ::
  "Sig dict \<Rightarrow> string \<Rightarrow> string \<Rightarrow> string \<Rightarrow> string \<Rightarrow> QFn \<Rightarrow> error + string" where
  "add_edge_type reg s sp t tp self =
     (if s = ''init'' then Inl (ValueError ''Please use `add_init_edge`'')
      else if t = ''fin'' then Inl (ValueError ''Please use `add_final_edge`'')
      else
        bind_err (node_attr (G self) s ''fnid'') (\<lambda>src_fnid.
        bind_err (node_attr (G self) t ''fnid'') (\<lambda>tgt_fnid.
        bind_err (out_type reg src_fnid sp) (\<lambda>src_datatype.
        bind_err (in_type reg tgt_fnid tp) (\<lambda>tgt_datatype.
        agree src_datatype tgt_datatype)))))"

definition store_edge ::
  "string \<Rightarrow> string \<Rightarrow> string \<Rightarrow> string \<Rightarrow> error + string \<Rightarrow> QFn \<Rightarrow> (error + unit) \<times> QFn" where
  "store_edge s sp t tp r self =
     (case r of
        Inl e \<Rightarrow> (Inl e, self)
      | Inr datatype \<Rightarrow>
          (Inr (), self\<lparr>G := nx_add_edge
             \<lparr>src = s, tgt = t, src_port = sp, tgt_port = tp, datatype_attr = datatype\<rparr>
             (G self)\<rparr>))"

definition add_edge ::
  "Sig dict \<Rightarrow> string \<Rightarrow> string \<Rightarrow> string \<Rightarrow> string \<Rightarrow> QFn \<Rightarrow> (error + unit) \<times> QFn" where
  "add_edge reg s sp t tp self = store_edge s sp t tp (add_edge_type reg s sp t tp self) self"

definition add_init_edge_type ::
  "Sig dict \<Rightarrow> string \<Rightarrow> string \<Rightarrow> string \<Rightarrow> QFn \<Rightarrow> error + string" where
  "add_init_edge_type reg sp t tp self =
     bind_err (getitem (in_types (sig self)) sp) (\<lambda>src_datatype.
     bind_err (node_attr (G self) t ''fnid'') (\<lambda>tgt_fnid.
     bind_err (in_type reg tgt_fnid tp) (\<lambda>tgt_datatype.
     agree src_datatype tgt_datatype)))"

definition add_init_edge ::
  "Sig dict \<Rightarrow> string \<Rightarrow> string \<Rightarrow> string \<Rightarrow> QFn \<Rightarrow> (error + unit) \<times> QFn" where
  "add_init_edge reg sp t tp self =
     store_edge ''init'' sp t tp (add_init_edge_type reg sp t tp self) self"

definition add_final_edge_type ::
  "Sig dict \<Rightarrow> string \<Rightarrow> string \<Rightarrow> string \<Rightarrow> QFn \<Rightarrow> error + string" where
  "add_final_edge_type reg s sp tp self =
     bind_err (getitem (out_types (sig self)) tp) (\<lambda>tgt_datatype.
     bind_err (node_attr (G self) s ''fnid'') (\<lambda>src_fnid.
     bind_err (out_type reg src_fnid sp) (\<lambda>src_datatype.
     agree src_datatype tgt_datatype)))"

definition add_final_edge ::
  "Sig dict \<Rightarrow> string \<Rightarrow> string \<Rightarrow> string \<Rightarrow> QFn \<Rightarrow> (error + unit) \<times> QFn" where
  "add_final_edge reg s sp tp self =
     store_edge s sp ''fin'' tp (add_final_edge_type reg s sp tp self) self"

text \<open>
  \<^verbatim>\<open>save_image\<close> hands one statement per node (name and label) and one per edge (the
  two endpoints) to the renderer; the picture itself is outside the builder. Reading a
  label raises for a node that has none. The builder is only read.
\<close>

record Digraph =
  gv_name :: string
  gv_nodes :: "(string \<times> string) list"
  gv_edges :: "(string \<times> string) list"

fun node_stmts :: "MultiDiGraph \<Rightarrow> string list \<Rightarrow> error + (string \<times> string) list" where
  "node_stmts g [] = Inr []"
| "node_stmts g (n # ns) =
     bind_err (node_attr g n ''label'') (\<lambda>l.
     bind_err (node_stmts g ns) (\<lambda>r. Inr ((n, l) # r)))"

definition save_image :: "QFn \<Rightarrow> (error + Digraph) \<times> QFn" where
  "save_image self =
     (bind_err (node_stmts (G self) (map fst (nodes (G self)))) (\<lambda>ns.
        Inr \<lparr>gv_name = name self, gv_nodes = ns,
             gv_edges = map (\<lambda>e. (src e, tgt e)) (nx_edges (G self))\<rparr>),
      self)"

section \<open>Call sequences\<close>

datatype call =
    AddNode string string string
  | AddEdge string string string string
  | AddInitEdge string string string
  | AddFinalEdge string string string
  | SaveImage

fun step :: "Sig dict \<Rightarrow> call \<Rightarrow> QFn \<Rightarrow> (error + unit) \<times> QFn" where
  "step reg (AddNode n fnid label) self = add_node n fnid label self"
| "step reg (AddEdge s sp t tp) self = add_edge reg s sp t tp self"
| "step reg (AddInitEdge sp t tp) self = add_init_edge reg sp t tp self"
| "step reg (AddFinalEdge s sp tp) self = add_final_edge reg s sp tp self"
| "step reg SaveImage self =
     (case fst (save_image self) of Inl e \<Rightarrow> Inl e | Inr _ \<Rightarrow> Inr (), snd (save_image self))"

text \<open>
  A driver that makes the calls one after the other on the same builder, going on after
  a call that raised: \<open>run\<close> is the builder at the end, \<open>outcomes\<close> what each call did.
\<close>

fun run :: "Sig dict \<Rightarrow> call list \<Rightarrow> QFn \<Rightarrow> QFn" where
  "run reg [] self = self"
| "run reg (c # cs) self = run reg cs (snd (step reg c self))"

fun outcomes :: "Sig dict \<Rightarrow> call list \<Rightarrow> QFn \<Rightarrow> (error + unit) list" where
  "outcomes reg [] self = []"
| "outcomes reg (c # cs) self = fst (step reg c self) # outcomes reg cs (snd (step reg c self))"

text \<open>The function \<^verbatim>\<open>test\<close>: the builder it creates and the calls it makes.\<close>

definition bell_sig :: Sig where
  "bell_sig = \<lparr>in_types = [(''q0'', ''Qubit''), (''q1'', ''Qubit'')],
               out_types = [(''q0'', ''Qubit''), (''q1'', ''Qubit'')]\<rparr>"

definition build_calls :: "call list" where
  "build_calls =
     [AddNode ''H'' ''H_gate'' ''H'',
      AddNode ''CX'' ''CX_gate'' ''CX'',
      AddInitEdge ''q0'' ''H'' ''q'',
      AddEdge ''H'' ''q'' ''CX'' ''ctl'',
      AddInitEdge ''q1'' ''CX'' ''tgt'',
      AddFinalEdge ''CX'' ''ctl'' ''q0'',
      AddFinalEdge ''CX'' ''tgt'' ''q1'']"

definition test_calls :: "call list" where
  "test_calls = build_calls @ [SaveImage]"

section \<open>Properties of a builder state\<close>

definition node_names :: "QFn \<Rightarrow> string list" where
  "node_names self = map fst (nodes (G self))"

definition node_count :: "QFn \<Rightarrow> nat" where
  "node_count self = length (nodes (G self))"

definition edge_count :: "QFn \<Rightarrow> nat" where
  "edge_count self = length (edges (G self))"

text \<open>
  The type a port is declared with: the circuit signature for the out-ports of
  \<open>init\<close> and the in-ports of \<open>fin\<close>, the table entry of the node's operation for any
  other node.
\<close>

definition declared_out :: "Sig dict \<Rightarrow> QFn \<Rightarrow> Edge \<Rightarrow> error + string" where
  "declared_out reg self e =
     (if src e = ''init'' then getitem (in_types (sig self)) (src_port e)
      else bind_err (node_attr (G self) (src e) ''fnid'') (\<lambda>f. out_type reg f (src_port e)))"

definition declared_in :: "Sig dict \<Rightarrow> QFn \<Rightarrow> Edge \<Rightarrow> error + string" where
  "declared_in reg self e =
     (if tgt e = ''fin'' then getitem (out_types (sig self)) (tgt_port e)
      else bind_err (node_attr (G self) (tgt e) ''fnid'') (\<lambda>f. in_type reg f (tgt_port e)))"

definition edge_typed :: "Sig dict \<Rightarrow> QFn \<Rightarrow> Edge \<Rightarrow> bool" where
  "edge_typed reg self e \<longleftrightarrow>
     declared_out reg self e = Inr (datatype_attr e) \<and>
     declared_in reg self e = Inr (datatype_attr e)"

definition type_safe :: "Sig dict \<Rightarrow> QFn \<Rightarrow> bool" where
  "type_safe reg self = list_all (edge_typed reg self) (edges (G self))"

text \<open>
  A boundary node as \<^verbatim>\<open>__init__\<close> creates it: it is in the graph and has no
  \<^verbatim>\<open>fnid\<close> attribute, so reading the attribute raises \<^verbatim>\<open>KeyError('fnid')\<close>.
\<close>

definition plain_node :: "QFn \<Rightarrow> string \<Rightarrow> bool" where
  "plain_node self b \<longleftrightarrow> node_attr (G self) b ''fnid'' = Inl (KeyError ''fnid'')"

text \<open>
  A call keeps the tags when it is not an \<^verbatim>\<open>add_node\<close> that names a boundary node or
  gives a node that has an operation identifier a different one.
\<close>

fun tag_kept :: "call \<Rightarrow> QFn \<Rightarrow> bool" where
  "tag_kept (AddNode n fnid label) self =
     (n \<noteq> ''init'' \<and> n \<noteq> ''fin'' \<and>
      (case node_attr (G self) n ''fnid'' of Inl _ \<Rightarrow> True | Inr f \<Rightarrow> f = fnid))"
| "tag_kept _ self = True"

fun keeps_tags :: "Sig dict \<Rightarrow> call list \<Rightarrow> QFn \<Rightarrow> bool" where
  "keeps_tags reg [] self = True"
| "keeps_tags reg (c # cs) self = (tag_kept c self \<and> keeps_tags reg cs (snd (step reg c self)))"

text \<open>The edge insertions of a call sequence that returned normally.\<close>

fun is_edge_call :: "call \<Rightarrow> bool" where
  "is_edge_call (AddEdge s sp t tp) = True"
| "is_edge_call (AddInitEdge sp t tp) = True"
| "is_edge_call (AddFinalEdge s sp tp) = True"
| "is_edge_call _ = False"

fun edge_successes :: "Sig dict \<Rightarrow> call list \<Rightarrow> QFn \<Rightarrow> nat" where
  "edge_successes reg [] self = 0"
| "edge_successes reg (c # cs) self =
     (if is_edge_call c \<and> fst (step reg c self) = Inr () then 1 else 0)
     + edge_successes reg cs (snd (step reg c self))"

section \<open>A second table\<close>

text \<open>
  A table with an operation \<open>M\<close> that turns a qubit into a bit has ports of two
  types, which the source's own table has not.
\<close>

definition measure_types :: "Sig dict" where
  "measure_types =
     [(''H_gate'', \<lparr>in_types = [(''q'', ''Qubit'')], out_types = [(''q'', ''Qubit'')]\<rparr>),
      (''M_gate'', \<lparr>in_types = [(''q'', ''Qubit'')], out_types = [(''c'', ''Bit'')]\<rparr>)]"

definition measure_builder :: QFn where
  "measure_builder =
     run measure_types [AddNode ''H'' ''H_gate'' ''H'', AddNode ''M'' ''M_gate'' ''M'']
       (QFn_init ''m'' \<lparr>in_types = [(''q'', ''Qubit'')], out_types = [(''c'', ''Bit'')]\<rparr>)"

section \<open>Dictionaries, the store and single calls\<close>

lemma getitem_Inr: "getitem d k = Inr v \<longleftrightarrow> map_of d k = Some v"
  by (simp add: getitem_def split: option.splits)

lemma bind_err_Inr: "bind_err m f = Inr y \<longleftrightarrow> (\<exists>x. m = Inr x \<and> f x = Inr y)"
  by (cases m) (simp_all add: bind_err_def)

lemma bind_err_simps: "bind_err (Inl e) f = Inl e" "bind_err (Inr x) f = f x"
  by (simp_all add: bind_err_def)

lemma node_attr_Inr:
  "node_attr g n k = Inr v \<longleftrightarrow> (\<exists>a. map_of (nodes g) n = Some a \<and> map_of a k = Some v)"
  by (simp add: node_attr_def bind_err_Inr getitem_Inr)

lemma node_attr_in_nodes: "node_attr g n k = Inr v \<Longrightarrow> n \<in> fst ` set (nodes g)"
  by (auto simp: node_attr_Inr dest: map_of_SomeD intro: rev_image_eqI)

lemma node_attr_absent: "n \<notin> fst ` set (nodes g) \<Longrightarrow> node_attr g n k = Inl (KeyError n)"
  by (simp add: node_attr_def getitem_def map_of_eq_None_iff[symmetric] bind_err_simps)

lemma plain_node_in_nodes:
  "plain_node self b \<Longrightarrow> b \<noteq> ''fnid'' \<Longrightarrow> b \<in> fst ` set (nodes (G self))"
  unfolding plain_node_def
  by (rule ccontr) (simp add: node_attr_absent)

lemma nx_touch_present: "n \<in> fst ` set (nodes g) \<Longrightarrow> nx_touch n g = g"
  by (simp add: nx_touch_def)

lemma nx_add_edge_present:
  "src e \<in> fst ` set (nodes g) \<Longrightarrow> tgt e \<in> fst ` set (nodes g) \<Longrightarrow>
   nx_add_edge e g = g\<lparr>edges := edges g @ [e]\<rparr>"
  by (simp add: nx_add_edge_def nx_touch_present)

lemma edges_nx_add_edge: "edges (nx_add_edge e g) = edges g @ [e]"
  by (simp add: nx_add_edge_def nx_touch_def Let_def)

lemma edges_nx_add_node: "edges (nx_add_node n attr g) = edges g"
  by (simp add: nx_add_node_def)

lemma length_map_entry: "length (AList.map_entry k f xs) = length xs"
  by (induct xs) auto

lemma length_nx_add_node: "length (nodes g) \<le> length (nodes (nx_add_node n attr g))"
  by (simp add: nx_add_node_def length_map_entry)

lemma names_nx_add_node: "fst ` set (nodes (nx_add_node n attr g)) = insert n (fst ` set (nodes g))"
  by (auto simp: nx_add_node_def dom_map_entry)

lemma map_names_nx_add_node_present:
  "n \<in> fst ` set (nodes g) \<Longrightarrow> map fst (nodes (nx_add_node n attr g)) = map fst (nodes g)"
proof -
  have "map fst (AList.map_entry n f xs) = map fst xs" for f :: "'b \<Rightarrow> 'b" and xs :: "(string \<times> 'b) list"
    by (induct xs) auto
  then show "n \<in> fst ` set (nodes g) \<Longrightarrow> ?thesis" by (simp add: nx_add_node_def)
qed

lemma map_of_nx_add_node:
  "map_of (nodes (nx_add_node n attr g)) m =
     (if m = n then Some (dict_update attr (case map_of (nodes g) n of None \<Rightarrow> [] | Some a \<Rightarrow> a))
      else map_of (nodes g) m)"
proof (cases "n \<in> fst ` set (nodes g)")
  case True
  then obtain a where "map_of (nodes g) n = Some a"
    by (metis map_of_eq_None_iff not_Some_eq)
  with True show ?thesis by (simp add: nx_add_node_def map_of_map_entry)
next
  case False
  then have "map_of (nodes g) n = None" by (simp add: map_of_eq_None_iff)
  with False show ?thesis by (auto simp: nx_add_node_def map_add_def split: option.splits)
qed

lemma map_of_dict_update2:
  "map_of (dict_update [(k1, v1), (k2, v2)] a) = (map_of a)(k1 \<mapsto> v1, k2 \<mapsto> v2)"
  by (simp add: dict_update_def update_conv')

lemma node_attr_add_node_other:
  "m \<noteq> n \<Longrightarrow> node_attr (G (snd (add_node n f l self))) m k = node_attr (G self) m k"
  by (simp add: add_node_def node_attr_def getitem_def map_of_nx_add_node)

lemma node_attr_add_node_fnid: "node_attr (G (snd (add_node n f l self))) n ''fnid'' = Inr f"
  by (simp add: add_node_def node_attr_Inr map_of_nx_add_node map_of_dict_update2)

lemma node_attr_add_node_label: "node_attr (G (snd (add_node n f l self))) n ''label'' = Inr l"
  by (simp add: add_node_def node_attr_Inr map_of_nx_add_node map_of_dict_update2)

lemma node_attr_add_node_rest:
  "n \<in> fst ` set (nodes (G self)) \<Longrightarrow> k \<noteq> ''fnid'' \<Longrightarrow> k \<noteq> ''label'' \<Longrightarrow>
   node_attr (G (snd (add_node n f l self))) n k = node_attr (G self) n k"
proof -
  assume a: "n \<in> fst ` set (nodes (G self))" "k \<noteq> ''fnid''" "k \<noteq> ''label''"
  then obtain a where "map_of (nodes (G self)) n = Some a"
    by (metis map_of_eq_None_iff not_Some_eq)
  with a show ?thesis
    by (simp add: add_node_def node_attr_def getitem_def map_of_nx_add_node map_of_dict_update2
        bind_err_simps)
qed

lemma agree_Inr: "agree a b = Inr d \<longleftrightarrow> a = b \<and> d = a"
  by (auto simp: agree_def)

lemma store_edge_Inr:
  "fst (store_edge s sp t tp r self) = Inr () \<longleftrightarrow> (\<exists>d. r = Inr d)"
  by (cases r) (simp_all add: store_edge_def)

lemma store_edge_Inl:
  "fst (store_edge s sp t tp r self) = Inl e \<Longrightarrow> store_edge s sp t tp r self = (Inl e, self)"
  by (cases r) (simp_all add: store_edge_def)

lemma add_edge_success:
  assumes "fst (add_edge reg s sp t tp self) = Inr ()"
  obtains d sf tf where
    "s \<noteq> ''init''" "t \<noteq> ''fin''"
    "node_attr (G self) s ''fnid'' = Inr sf" "node_attr (G self) t ''fnid'' = Inr tf"
    "out_type reg sf sp = Inr d" "in_type reg tf tp = Inr d"
    "snd (add_edge reg s sp t tp self) =
       self\<lparr>G := nx_add_edge \<lparr>src = s, tgt = t, src_port = sp, tgt_port = tp, datatype_attr = d\<rparr> (G self)\<rparr>"
proof -
  from assms obtain d where d: "add_edge_type reg s sp t tp self = Inr d"
    by (auto simp: add_edge_def store_edge_Inr)
  then have g: "s \<noteq> ''init''" "t \<noteq> ''fin''"
    by (auto simp: add_edge_type_def split: if_splits)
  with d obtain sf tf where
    "node_attr (G self) s ''fnid'' = Inr sf" "node_attr (G self) t ''fnid'' = Inr tf"
    "out_type reg sf sp = Inr d" "in_type reg tf tp = Inr d"
    by (auto simp: add_edge_type_def bind_err_Inr agree_Inr)
  moreover have "snd (add_edge reg s sp t tp self) =
       self\<lparr>G := nx_add_edge \<lparr>src = s, tgt = t, src_port = sp, tgt_port = tp, datatype_attr = d\<rparr> (G self)\<rparr>"
    using d by (simp add: add_edge_def store_edge_def)
  ultimately show thesis using g that by blast
qed

lemma add_init_edge_success:
  assumes "fst (add_init_edge reg sp t tp self) = Inr ()"
  obtains d tf where
    "getitem (in_types (sig self)) sp = Inr d"
    "node_attr (G self) t ''fnid'' = Inr tf" "in_type reg tf tp = Inr d"
    "snd (add_init_edge reg sp t tp self) =
       self\<lparr>G := nx_add_edge \<lparr>src = ''init'', tgt = t, src_port = sp, tgt_port = tp, datatype_attr = d\<rparr> (G self)\<rparr>"
proof -
  from assms obtain d where d: "add_init_edge_type reg sp t tp self = Inr d"
    by (auto simp: add_init_edge_def store_edge_Inr)
  then obtain tf where
    "getitem (in_types (sig self)) sp = Inr d"
    "node_attr (G self) t ''fnid'' = Inr tf" "in_type reg tf tp = Inr d"
    by (auto simp: add_init_edge_type_def bind_err_Inr agree_Inr)
  moreover have "snd (add_init_edge reg sp t tp self) =
       self\<lparr>G := nx_add_edge \<lparr>src = ''init'', tgt = t, src_port = sp, tgt_port = tp, datatype_attr = d\<rparr> (G self)\<rparr>"
    using d by (simp add: add_init_edge_def store_edge_def)
  ultimately show thesis using that by blast
qed

lemma add_final_edge_success:
  assumes "fst (add_final_edge reg s sp tp self) = Inr ()"
  obtains d sf where
    "getitem (out_types (sig self)) tp = Inr d"
    "node_attr (G self) s ''fnid'' = Inr sf" "out_type reg sf sp = Inr d"
    "snd (add_final_edge reg s sp tp self) =
       self\<lparr>G := nx_add_edge \<lparr>src = s, tgt = ''fin'', src_port = sp, tgt_port = tp, datatype_attr = d\<rparr> (G self)\<rparr>"
proof -
  from assms obtain d where d: "add_final_edge_type reg s sp tp self = Inr d"
    by (auto simp: add_final_edge_def store_edge_Inr)
  then obtain sf where
    "getitem (out_types (sig self)) tp = Inr d"
    "node_attr (G self) s ''fnid'' = Inr sf" "out_type reg sf sp = Inr d"
    by (auto simp: add_final_edge_type_def bind_err_Inr agree_Inr)
  moreover have "snd (add_final_edge reg s sp tp self) =
       self\<lparr>G := nx_add_edge \<lparr>src = s, tgt = ''fin'', src_port = sp, tgt_port = tp, datatype_attr = d\<rparr> (G self)\<rparr>"
    using d by (simp add: add_final_edge_def store_edge_def)
  ultimately show thesis using that by blast
qed

lemma edge_call_nodes:
  assumes "is_edge_call c" and "fst (step reg c self) = Inr ()"
    and "''init'' \<in> fst ` set (nodes (G self))" and "''fin'' \<in> fst ` set (nodes (G self))"
  shows "nodes (G (snd (step reg c self))) = nodes (G self)"
proof (cases c)
  case (AddEdge s sp t tp)
  with assms(2) have "fst (add_edge reg s sp t tp self) = Inr ()" by simp
  then show ?thesis
    by (rule add_edge_success) (simp add: AddEdge nx_add_edge_present node_attr_in_nodes)
next
  case (AddInitEdge sp t tp)
  with assms(2) have "fst (add_init_edge reg sp t tp self) = Inr ()" by simp
  then show ?thesis
    by (rule add_init_edge_success)
       (simp add: AddInitEdge nx_add_edge_present node_attr_in_nodes assms(3))
next
  case (AddFinalEdge s sp tp)
  with assms(2) have "fst (add_final_edge reg s sp tp self) = Inr ()" by simp
  then show ?thesis
    by (rule add_final_edge_success)
       (simp add: AddFinalEdge nx_add_edge_present node_attr_in_nodes assms(4))
qed (use assms(1) in simp_all)

lemma edge_typed_cong:
  "nodes (G self') = nodes (G self) \<Longrightarrow> sig self' = sig self \<Longrightarrow>
   edge_typed reg self' e = edge_typed reg self e"
  by (simp add: edge_typed_def declared_out_def declared_in_def node_attr_def)

lemma edge_typed_mono:
  assumes "sig self' = sig self"
    and "\<And>n f. node_attr (G self) n ''fnid'' = Inr f \<Longrightarrow> node_attr (G self') n ''fnid'' = Inr f"
    and "edge_typed reg self e"
  shows "edge_typed reg self' e"
  using assms
  by (auto simp: edge_typed_def declared_out_def declared_in_def bind_err_Inr split: if_splits)

lemma edge_call_typed:
  assumes "is_edge_call c" and "fst (step reg c self) = Inr ()"
    and "plain_node self ''init''" and "plain_node self ''fin''"
  obtains e where
    "snd (step reg c self) = self\<lparr>G := (G self)\<lparr>edges := edges (G self) @ [e]\<rparr>\<rparr>"
    "edge_typed reg self e"
proof (cases c)
  case (AddEdge s sp t tp)
  with assms(2) have "fst (add_edge reg s sp t tp self) = Inr ()" by simp
  then show ?thesis
  proof (rule add_edge_success)
    fix d sf tf
    assume h: "s \<noteq> ''init''" "t \<noteq> ''fin''"
      "node_attr (G self) s ''fnid'' = Inr sf" "node_attr (G self) t ''fnid'' = Inr tf"
      "out_type reg sf sp = Inr d" "in_type reg tf tp = Inr d"
      "snd (add_edge reg s sp t tp self) =
        self\<lparr>G := nx_add_edge \<lparr>src = s, tgt = t, src_port = sp, tgt_port = tp, datatype_attr = d\<rparr> (G self)\<rparr>"
    let ?e = "\<lparr>src = s, tgt = t, src_port = sp, tgt_port = tp, datatype_attr = d\<rparr>"
    have "snd (step reg c self) = self\<lparr>G := (G self)\<lparr>edges := edges (G self) @ [?e]\<rparr>\<rparr>"
      using h by (simp add: AddEdge nx_add_edge_present node_attr_in_nodes)
    moreover have "edge_typed reg self ?e"
      using h by (simp add: edge_typed_def declared_out_def declared_in_def bind_err_simps)
    ultimately show thesis by (rule that)
  qed
next
  case (AddInitEdge sp t tp)
  with assms(2) have "fst (add_init_edge reg sp t tp self) = Inr ()" by simp
  then show ?thesis
  proof (rule add_init_edge_success)
    fix d tf
    assume h: "getitem (in_types (sig self)) sp = Inr d"
      "node_attr (G self) t ''fnid'' = Inr tf" "in_type reg tf tp = Inr d"
      "snd (add_init_edge reg sp t tp self) =
        self\<lparr>G := nx_add_edge \<lparr>src = ''init'', tgt = t, src_port = sp, tgt_port = tp, datatype_attr = d\<rparr> (G self)\<rparr>"
    let ?e = "\<lparr>src = ''init'', tgt = t, src_port = sp, tgt_port = tp, datatype_attr = d\<rparr>"
    have t: "t \<noteq> ''fin''" using h(2) assms(4) by (auto simp: plain_node_def)
    have "''init'' \<in> fst ` set (nodes (G self))" using assms(3) by (simp add: plain_node_in_nodes)
    then have "snd (step reg c self) = self\<lparr>G := (G self)\<lparr>edges := edges (G self) @ [?e]\<rparr>\<rparr>"
      using h by (simp add: AddInitEdge nx_add_edge_present node_attr_in_nodes)
    moreover have "edge_typed reg self ?e"
      using h t by (simp add: edge_typed_def declared_out_def declared_in_def bind_err_simps)
    ultimately show thesis by (rule that)
  qed
next
  case (AddFinalEdge s sp tp)
  with assms(2) have "fst (add_final_edge reg s sp tp self) = Inr ()" by simp
  then show ?thesis
  proof (rule add_final_edge_success)
    fix d sf
    assume h: "getitem (out_types (sig self)) tp = Inr d"
      "node_attr (G self) s ''fnid'' = Inr sf" "out_type reg sf sp = Inr d"
      "snd (add_final_edge reg s sp tp self) =
        self\<lparr>G := nx_add_edge \<lparr>src = s, tgt = ''fin'', src_port = sp, tgt_port = tp, datatype_attr = d\<rparr> (G self)\<rparr>"
    let ?e = "\<lparr>src = s, tgt = ''fin'', src_port = sp, tgt_port = tp, datatype_attr = d\<rparr>"
    have s: "s \<noteq> ''init''" using h(2) assms(3) by (auto simp: plain_node_def)
    have "''fin'' \<in> fst ` set (nodes (G self))" using assms(4) by (simp add: plain_node_in_nodes)
    then have "snd (step reg c self) = self\<lparr>G := (G self)\<lparr>edges := edges (G self) @ [?e]\<rparr>\<rparr>"
      using h by (simp add: AddFinalEdge nx_add_edge_present node_attr_in_nodes)
    moreover have "edge_typed reg self ?e"
      using h s by (simp add: edge_typed_def declared_out_def declared_in_def bind_err_simps)
    ultimately show thesis by (rule that)
  qed
qed (use assms(1) in simp_all)

lemma step_failure: "fst (step reg c self) = Inl e \<Longrightarrow> snd (step reg c self) = self"
  by (cases c)
     (auto simp: add_node_def add_edge_def add_init_edge_def add_final_edge_def save_image_def
        dest: store_edge_Inl)

lemma step_outcome_cases:
  obtains e where "fst (step reg c self) = Inl e" | "fst (step reg c self) = Inr ()"
  by (cases "fst (step reg c self)") auto

text \<open>One call that keeps the tags preserves the three facts the invariant rests on.\<close>

lemma edge_step_invariant:
  assumes "is_edge_call c" and "plain_node self ''init''" and "plain_node self ''fin''"
    and "type_safe reg self"
  shows "plain_node (snd (step reg c self)) ''init'' \<and> plain_node (snd (step reg c self)) ''fin'' \<and>
         type_safe reg (snd (step reg c self))"
proof (rule step_outcome_cases[of reg c self])
  fix e assume "fst (step reg c self) = Inl e"
  then show ?thesis using assms by (simp add: step_failure)
next
  assume "fst (step reg c self) = Inr ()"
  from edge_call_typed[OF assms(1) this assms(2,3)] obtain e where
    e: "snd (step reg c self) = self\<lparr>G := (G self)\<lparr>edges := edges (G self) @ [e]\<rparr>\<rparr>"
       "edge_typed reg self e" by blast
  have "edge_typed reg (snd (step reg c self)) = edge_typed reg self"
    by (rule ext, rule edge_typed_cong) (simp_all add: e(1))
  moreover have "edges (G (snd (step reg c self))) = edges (G self) @ [e]"
    by (simp add: e(1))
  moreover have "nodes (G (snd (step reg c self))) = nodes (G self)"
    by (simp add: e(1))
  ultimately show ?thesis
    using assms e(2) by (simp add: type_safe_def plain_node_def node_attr_def)
qed

lemma step_invariant:
  assumes "tag_kept c self" and "plain_node self ''init''" and "plain_node self ''fin''"
    and "type_safe reg self"
  shows "plain_node (snd (step reg c self)) ''init'' \<and> plain_node (snd (step reg c self)) ''fin'' \<and>
         type_safe reg (snd (step reg c self))"
proof (cases c)
  case (AddNode n f l)
  with assms(1) have n: "n \<noteq> ''init''" "n \<noteq> ''fin''"
    and tag: "\<And>f'. node_attr (G self) n ''fnid'' = Inr f' \<Longrightarrow> f' = f"
    by auto
  let ?self' = "snd (add_node n f l self)"
  have keep: "node_attr (G ?self') m ''fnid'' = Inr g" if "node_attr (G self) m ''fnid'' = Inr g" for m g
  proof (cases "m = n")
    case True
    with that tag show ?thesis by (simp add: node_attr_add_node_fnid)
  next
    case False
    with that show ?thesis by (simp add: node_attr_add_node_other)
  qed
  have "sig ?self' = sig self" "edges (G ?self') = edges (G self)"
    by (simp_all add: add_node_def edges_nx_add_node)
  with keep assms(4) have "type_safe reg ?self'"
    by (auto simp: type_safe_def list_all_iff intro: edge_typed_mono)
  moreover have "plain_node ?self' ''init''" "plain_node ?self' ''fin''"
    using n assms(2,3) by (simp_all add: plain_node_def node_attr_add_node_other)
  ultimately show ?thesis by (simp add: AddNode)
next
  case SaveImage
  with assms show ?thesis by (simp add: save_image_def)
next
  case (AddEdge s sp t tp)
  then have "is_edge_call c" by simp
  then show ?thesis using assms(2-4) by (rule edge_step_invariant)
next
  case (AddInitEdge sp t tp)
  then have "is_edge_call c" by simp
  then show ?thesis using assms(2-4) by (rule edge_step_invariant)
next
  case (AddFinalEdge s sp tp)
  then have "is_edge_call c" by simp
  then show ?thesis using assms(2-4) by (rule edge_step_invariant)
qed

lemma run_invariant:
  "keeps_tags reg cs self \<Longrightarrow> plain_node self ''init'' \<Longrightarrow> plain_node self ''fin'' \<Longrightarrow>
   type_safe reg self \<Longrightarrow> type_safe reg (run reg cs self)"
proof (induction cs arbitrary: self)
  case Nil
  then show ?case by simp
next
  case (Cons c cs)
  from Cons.prems have "tag_kept c self" "keeps_tags reg cs (snd (step reg c self))" by simp_all
  with step_invariant[of c self reg] Cons.prems Cons.IH[of "snd (step reg c self)"]
  show ?case by simp
qed

lemma QFn_init_plain: "plain_node (QFn_init nm sg) ''init''" "plain_node (QFn_init nm sg) ''fin''"
  by (simp_all add: plain_node_def QFn_init_def node_attr_def getitem_def map_of_nx_add_node
      nx_empty_def dict_update_def bind_err_simps)

lemma QFn_init_edges: "edges (G (QFn_init nm sg)) = []"
  by (simp add: QFn_init_def edges_nx_add_node nx_empty_def)

lemma node_attr_Inl: "node_attr g n k = Inl e \<Longrightarrow> \<exists>k'. e = KeyError k'"
  by (auto simp: node_attr_def bind_err_def getitem_def split: sum.splits option.splits)

lemma names_nx_add_edge: "fst ` set (nodes g) \<subseteq> fst ` set (nodes (nx_add_edge e g))"
  by (auto simp: nx_add_edge_def nx_touch_def Let_def)

lemma length_nx_add_edge: "length (nodes g) \<le> length (nodes (nx_add_edge e g))"
  by (simp add: nx_add_edge_def nx_touch_def Let_def)

lemma store_edge_names:
  "fst ` set (nodes (G self)) \<subseteq> fst ` set (nodes (G (snd (store_edge s sp t tp r self))))"
  using names_nx_add_edge by (cases r) (simp_all add: store_edge_def)

lemma store_edge_node_count:
  "length (nodes (G self)) \<le> length (nodes (G (snd (store_edge s sp t tp r self))))"
  by (cases r) (simp_all add: store_edge_def length_nx_add_edge)

lemma store_edge_edge_count:
  "length (edges (G (snd (store_edge s sp t tp r self)))) =
     length (edges (G self)) + (if fst (store_edge s sp t tp r self) = Inr () then 1 else 0)"
  by (cases r) (simp_all add: store_edge_def edges_nx_add_edge)

lemma step_names: "fst ` set (nodes (G self)) \<subseteq> fst ` set (nodes (G (snd (step reg c self))))"
proof (cases c)
  case (AddNode n f l)
  then show ?thesis by (auto simp: add_node_def names_nx_add_node)
qed (simp_all add: add_edge_def add_init_edge_def add_final_edge_def store_edge_names save_image_def)

lemma run_names: "fst ` set (nodes (G self)) \<subseteq> fst ` set (nodes (G (run reg cs self)))"
proof (induction cs arbitrary: self)
  case Nil
  show ?case by simp
next
  case (Cons c cs)
  from step_names[of self reg c] Cons.IH[of "snd (step reg c self)"] show ?case by auto
qed

lemma QFn_init_names: "fst ` set (nodes (G (QFn_init nm sg))) = {''init'', ''fin''}"
  by (auto simp: QFn_init_def names_nx_add_node nx_empty_def)

lemma step_node_count: "node_count self \<le> node_count (snd (step reg c self))"
  by (cases c)
     (simp_all add: node_count_def add_node_def length_nx_add_node add_edge_def add_init_edge_def
        add_final_edge_def store_edge_node_count save_image_def)

lemma step_edge_count:
  "edge_count (snd (step reg c self)) =
     edge_count self + (if is_edge_call c \<and> fst (step reg c self) = Inr () then 1 else 0)"
  by (cases c)
     (simp_all add: edge_count_def add_node_def edges_nx_add_node add_edge_def add_init_edge_def
        add_final_edge_def store_edge_edge_count save_image_def)

lemma run_edge_count: "edge_count (run reg cs self) = edge_count self + edge_successes reg cs self"
proof (induction cs arbitrary: self)
  case Nil
  show ?case by simp
next
  case (Cons c cs)
  show ?case
    using Cons.IH[of "snd (step reg c self)"] step_edge_count[of reg c self] by simp
qed

lemma edge_call_absent_endpoint:
  "s \<notin> fst ` set (nodes (G self)) \<or> t \<notin> fst ` set (nodes (G self)) \<Longrightarrow>
   isl (fst (add_edge reg s sp t tp self))"
  "t \<notin> fst ` set (nodes (G self)) \<Longrightarrow> isl (fst (add_init_edge reg sp t tp self))"
  "s \<notin> fst ` set (nodes (G self)) \<Longrightarrow> isl (fst (add_final_edge reg s sp tp self))"
proof -
  show "isl (fst (add_edge reg s sp t tp self))"
    if "s \<notin> fst ` set (nodes (G self)) \<or> t \<notin> fst ` set (nodes (G self))"
  proof (cases "fst (add_edge reg s sp t tp self)")
    case (Inr u)
    then have "fst (add_edge reg s sp t tp self) = Inr ()" by simp
    then show ?thesis using that by (auto elim!: add_edge_success dest!: node_attr_in_nodes)
  qed simp
  show "isl (fst (add_init_edge reg sp t tp self))" if "t \<notin> fst ` set (nodes (G self))"
  proof (cases "fst (add_init_edge reg sp t tp self)")
    case (Inr u)
    then have "fst (add_init_edge reg sp t tp self) = Inr ()" by simp
    then show ?thesis using that by (auto elim!: add_init_edge_success dest!: node_attr_in_nodes)
  qed simp
  show "isl (fst (add_final_edge reg s sp tp self))" if "s \<notin> fst ` set (nodes (G self))"
  proof (cases "fst (add_final_edge reg s sp tp self)")
    case (Inr u)
    then have "fst (add_final_edge reg s sp tp self) = Inr ()" by simp
    then show ?thesis using that by (auto elim!: add_final_edge_success dest!: node_attr_in_nodes)
  qed simp
qed


lemmas builder_defs =
  QFn_init_def nx_empty_def nx_add_node_def nx_touch_def nx_add_edge_def dict_update_def
  add_node_def add_edge_def add_edge_type_def add_init_edge_def add_init_edge_type_def
  add_final_edge_def add_final_edge_type_def store_edge_def node_attr_def getitem_def
  bind_err_def out_type_def in_type_def agree_def type_mismatch_def fn_types_def bell_sig_def
  save_image_def node_names_def node_count_def edge_count_def

section \<open>The claims\<close>

text \<open>
  The specification's error names stand for the exceptions of the source as follows.
  \<^item> MisusedBoundaryNode: \<open>ValueError\<close> with one of the two messages that send the
    caller to \<^verbatim>\<open>add_init_edge\<close> or \<^verbatim>\<open>add_final_edge\<close>.
  \<^item> TypeMismatch: \<^const>\<open>type_mismatch\<close>, the \<open>ValueError\<close> whose message holds both types.
  \<^item> UnknownNode, UnknownOperation, UnknownPort: \<open>KeyError\<close> with the node name, the
    operation identifier or the port name that was not found.
  \<^item> DuplicateNode: no exception of the source.
\<close>

text \<open>
  C1, as stated: in every state a call sequence reaches from a new builder, every edge
  carries the type declared for its source port and for its target port. This fails:
  \<^verbatim>\<open>add_node\<close> on the name of a node that has edges gives the node another operation,
  and the edge stored before keeps its type. With the source's table, node \<open>H\<close> is
  re-tagged from \<open>H_gate\<close> to \<open>CX_gate\<close>, which has no out-port \<open>q\<close>.
\<close>

theorem retagged_source_counterexample:
  "edges (G (run fn_types
       [AddNode ''H'' ''H_gate'' ''H'', AddNode ''CX'' ''CX_gate'' ''CX'',
        AddEdge ''H'' ''q'' ''CX'' ''ctl'', AddNode ''H'' ''CX_gate'' ''H'']
       (QFn_init ''bell'' bell_sig)))
     = [\<lparr>src = ''H'', tgt = ''CX'', src_port = ''q'', tgt_port = ''ctl'',
         datatype_attr = ''Qubit''\<rparr>] \<and>
   node_attr (G (run fn_types
       [AddNode ''H'' ''H_gate'' ''H'', AddNode ''CX'' ''CX_gate'' ''CX'',
        AddEdge ''H'' ''q'' ''CX'' ''ctl'', AddNode ''H'' ''CX_gate'' ''H'']
       (QFn_init ''bell'' bell_sig))) ''H'' ''fnid'' = Inr ''CX_gate'' \<and>
   declared_out fn_types
     (run fn_types
       [AddNode ''H'' ''H_gate'' ''H'', AddNode ''CX'' ''CX_gate'' ''CX'',
        AddEdge ''H'' ''q'' ''CX'' ''ctl'', AddNode ''H'' ''CX_gate'' ''H'']
       (QFn_init ''bell'' bell_sig))
     \<lparr>src = ''H'', tgt = ''CX'', src_port = ''q'', tgt_port = ''ctl'',
      datatype_attr = ''Qubit''\<rparr>
     = Inl (KeyError ''q'')"
  by (simp add: builder_defs declared_out_def)

text \<open>
  C1, amended: the invariant holds in every state reached from a new builder by a call
  sequence in which no \<^verbatim>\<open>add_node\<close> names a boundary node or gives a node a different
  operation identifier from the one it has. Failed calls may occur anywhere in the
  sequence.
\<close>

theorem edges_typed_while_tags_kept:
  assumes "keeps_tags reg cs (QFn_init nm sg)"
  shows "\<forall>e \<in> set (edges (G (run reg cs (QFn_init nm sg)))).
           declared_out reg (run reg cs (QFn_init nm sg)) e = Inr (datatype_attr e) \<and>
           declared_in reg (run reg cs (QFn_init nm sg)) e = Inr (datatype_attr e)"
proof -
  have "type_safe reg (QFn_init nm sg)" by (simp add: type_safe_def QFn_init_edges)
  with assms have "type_safe reg (run reg cs (QFn_init nm sg))"
    by (intro run_invariant QFn_init_plain)
  then show ?thesis by (simp add: type_safe_def list_all_iff edge_typed_def)
qed

theorem edges_typed_witness:
  "keeps_tags fn_types build_calls (QFn_init ''bell'' bell_sig) \<and>
   length (edges (G (run fn_types build_calls (QFn_init ''bell'' bell_sig)))) = 5 \<and>
   list_all (\<lambda>e. declared_out fn_types (run fn_types build_calls (QFn_init ''bell'' bell_sig)) e
                    = Inr (datatype_attr e) \<and>
                 declared_in fn_types (run fn_types build_calls (QFn_init ''bell'' bell_sig)) e
                    = Inr (datatype_attr e))
      (edges (G (run fn_types build_calls (QFn_init ''bell'' bell_sig))))"
proof -
  have k: "keeps_tags fn_types build_calls (QFn_init ''bell'' bell_sig)"
    by (simp add: build_calls_def builder_defs)
  have l: "length (edges (G (run fn_types build_calls (QFn_init ''bell'' bell_sig)))) = 5"
    by (simp add: build_calls_def builder_defs)
  show ?thesis
    using k l edges_typed_while_tags_kept[OF k] by (simp add: list_all_iff)
qed



text \<open>
  C3, as stated: \<^verbatim>\<open>add_edge\<close> with \<open>init\<close> as target or \<open>fin\<close> as source always raises
  the boundary \<open>ValueError\<close>. The source guards only the source \<open>init\<close> and the target
  \<open>fin\<close>. On a new builder the call from \<open>fin\<close> to \<open>init\<close> raises
  \<^verbatim>\<open>KeyError('fnid')\<close>; once \<^verbatim>\<open>add_node\<close> has given \<open>init\<close> an operation, an edge
  into \<open>init\<close> is stored.
\<close>

theorem reverse_boundary_counterexample:
  "fst (add_edge fn_types ''fin'' ''q'' ''init'' ''q'' (QFn_init ''bell'' bell_sig))
     = Inl (KeyError ''fnid'') \<and>
   fst (add_edge fn_types ''H'' ''q'' ''init'' ''q''
         (run fn_types [AddNode ''H'' ''H_gate'' ''H'', AddNode ''init'' ''H_gate'' '''']
            (QFn_init ''bell'' bell_sig)))
     = Inr ()"
  by (simp add: builder_defs)

text \<open>
  C3, amended: while the boundary nodes are as \<^verbatim>\<open>__init__\<close> made them (no \<^verbatim>\<open>fnid\<close>),
  \<^verbatim>\<open>add_edge\<close> with \<open>init\<close> as target or \<open>fin\<close> as source always raises and leaves the
  builder as it was. The exception is a \<open>ValueError\<close> only when the source is \<open>init\<close>
  as well or the target is \<open>fin\<close> as well; otherwise it is a \<open>KeyError\<close>.
\<close>

theorem add_edge_reverse_boundary:
  assumes "plain_node self ''init''" and "plain_node self ''fin''"
    and "t = ''init'' \<or> s = ''fin''"
  shows "\<exists>e. add_edge reg s sp t tp self = (Inl e, self) \<and>
              (case e of ValueError m \<Rightarrow> s = ''init'' \<or> t = ''fin''
                       | KeyError k \<Rightarrow> s \<noteq> ''init'' \<and> t \<noteq> ''fin'')"
proof (cases "s = ''init'' \<or> t = ''fin''")
  case True
  then show ?thesis
    by (auto simp: add_edge_def add_edge_type_def store_edge_def)
next
  case False
  then have g: "s \<noteq> ''init''" "t \<noteq> ''fin''" by simp_all
  show ?thesis
  proof (cases "node_attr (G self) s ''fnid''")
    case (Inl e)
    then obtain k where "e = KeyError k" by (auto dest: node_attr_Inl)
    with Inl g show ?thesis
      by (simp add: add_edge_def add_edge_type_def store_edge_def bind_err_simps)
  next
    case (Inr sf)
    with assms(2) have "s \<noteq> ''fin''" by (auto simp: plain_node_def)
    with assms(3) have "t = ''init''" by simp
    with assms(1) have "node_attr (G self) t ''fnid'' = Inl (KeyError ''fnid'')"
      by (simp add: plain_node_def)
    with Inr g show ?thesis
      by (simp add: add_edge_def add_edge_type_def store_edge_def bind_err_simps)
  qed
qed

theorem add_edge_reverse_boundary_witness:
  "plain_node (QFn_init ''bell'' bell_sig) ''init'' \<and>
   plain_node (QFn_init ''bell'' bell_sig) ''fin'' \<and>
   (\<exists>k. add_edge fn_types ''fin'' ''q'' ''init'' ''q'' (QFn_init ''bell'' bell_sig)
           = (Inl (KeyError k), QFn_init ''bell'' bell_sig))"
proof -
  have p: "plain_node (QFn_init ''bell'' bell_sig) ''init''"
          "plain_node (QFn_init ''bell'' bell_sig) ''fin''"
    by (simp_all add: plain_node_def builder_defs)
  from add_edge_reverse_boundary[OF p, of "''init''" "''fin''" fn_types "''q''" "''q''"]
  obtain e where e:
    "add_edge fn_types ''fin'' ''q'' ''init'' ''q'' (QFn_init ''bell'' bell_sig)
       = (Inl e, QFn_init ''bell'' bell_sig)"
    "case e of ValueError m \<Rightarrow> ''fin'' = ''init'' \<or> ''init'' = ''fin''
             | KeyError k \<Rightarrow> ''fin'' \<noteq> ''init'' \<and> ''init'' \<noteq> ''fin''"
    by auto
  then show ?thesis using p by (cases e) simp_all
qed

text \<open>
  C4, as stated: \<^verbatim>\<open>add_node\<close> on a name that is in the graph fails and leaves the
  stored node as it was. The source has no such check: the call returns normally and
  the node gets the new operation identifier and label.
\<close>

theorem duplicate_node_counterexample:
  "fst (add_node ''H'' ''CX_gate'' ''X''
         (snd (add_node ''H'' ''H_gate'' ''H'' (QFn_init ''bell'' bell_sig)))) = Inr () \<and>
   map_of (nodes (G (snd (add_node ''H'' ''H_gate'' ''H'' (QFn_init ''bell'' bell_sig))))) ''H''
     = Some [(''fnid'', ''H_gate''), (''label'', ''H'')] \<and>
   map_of (nodes (G (snd (add_node ''H'' ''CX_gate'' ''X''
         (snd (add_node ''H'' ''H_gate'' ''H'' (QFn_init ''bell'' bell_sig))))))) ''H''
     = Some [(''fnid'', ''CX_gate''), (''label'', ''X'')]"
  by (simp add: builder_defs)

text \<open>
  C4, amended: \<^verbatim>\<open>add_node\<close> on a name that is in the graph (a boundary name included)
  returns normally; the nodes keep their names and order and the edges are untouched;
  the named node gets the new operation identifier and the new label; every other
  attribute of it and every other node is as before.
\<close>

theorem add_node_existing_name:
  assumes "n \<in> set (node_names self)"
  shows "fst (add_node n f l self) = Inr () \<and>
         node_names (snd (add_node n f l self)) = node_names self \<and>
         edges (G (snd (add_node n f l self))) = edges (G self) \<and>
         node_attr (G (snd (add_node n f l self))) n ''fnid'' = Inr f \<and>
         node_attr (G (snd (add_node n f l self))) n ''label'' = Inr l \<and>
         (\<forall>m k. m \<noteq> n \<or> (k \<noteq> ''fnid'' \<and> k \<noteq> ''label'') \<longrightarrow>
            node_attr (G (snd (add_node n f l self))) m k = node_attr (G self) m k)"
proof -
  from assms have n: "n \<in> fst ` set (nodes (G self))" by (simp add: node_names_def)
  have "fst (add_node n f l self) = Inr ()" by (simp add: add_node_def)
  moreover have "node_names (snd (add_node n f l self)) = node_names self"
    using n by (simp add: node_names_def add_node_def map_names_nx_add_node_present)
  moreover have "edges (G (snd (add_node n f l self))) = edges (G self)"
    by (simp add: add_node_def edges_nx_add_node)
  moreover have "node_attr (G (snd (add_node n f l self))) m k = node_attr (G self) m k"
    if "m \<noteq> n \<or> (k \<noteq> ''fnid'' \<and> k \<noteq> ''label'')" for m k
    using that n by (cases "m = n") (simp_all add: node_attr_add_node_other node_attr_add_node_rest)
  ultimately show ?thesis
    by (simp add: node_attr_add_node_fnid node_attr_add_node_label)
qed

theorem add_node_existing_name_witness:
  "''init'' \<in> set (node_names (QFn_init ''bell'' bell_sig)) \<and>
   fst (add_node ''init'' ''H_gate'' ''go'' (QFn_init ''bell'' bell_sig)) = Inr () \<and>
   node_names (snd (add_node ''init'' ''H_gate'' ''go'' (QFn_init ''bell'' bell_sig)))
     = [''init'', ''fin''] \<and>
   node_attr (G (snd (add_node ''init'' ''H_gate'' ''go'' (QFn_init ''bell'' bell_sig))))
     ''init'' ''fnid'' = Inr ''H_gate''"
proof -
  have i: "''init'' \<in> set (node_names (QFn_init ''bell'' bell_sig))"
    and ns: "node_names (QFn_init ''bell'' bell_sig) = [''init'', ''fin'']"
    by (simp_all add: builder_defs)
  show ?thesis
    using i ns add_node_existing_name[OF i, of "''H_gate''" "''go''"] by simp
qed




text \<open>
  C6: \<^verbatim>\<open>add_edge\<close> with \<open>init\<close> as source or \<open>fin\<close> as target raises the \<open>ValueError\<close>
  that names the method to use instead, whatever the other arguments and the state of
  the builder, and the builder is as it was.
\<close>

theorem add_edge_boundary_guard:
  assumes "s = ''init'' \<or> t = ''fin''"
  shows "add_edge reg s sp t tp self =
           (Inl (ValueError (if s = ''init'' then ''Please use `add_init_edge`''
                             else ''Please use `add_final_edge`'')), self)"
  using assms by (auto simp: add_edge_def add_edge_type_def store_edge_def)

theorem add_edge_boundary_guard_witness:
  "add_edge fn_types ''init'' ''q0'' ''H'' ''q''
      (run fn_types build_calls (QFn_init ''bell'' bell_sig))
     = (Inl (ValueError ''Please use `add_init_edge`''),
        run fn_types build_calls (QFn_init ''bell'' bell_sig)) \<and>
   add_edge fn_types ''CX'' ''ctl'' ''fin'' ''q0''
      (run fn_types build_calls (QFn_init ''bell'' bell_sig))
     = (Inl (ValueError ''Please use `add_final_edge`''),
        run fn_types build_calls (QFn_init ''bell'' bell_sig))"
  using add_edge_boundary_guard[of "''init''" "''H''" fn_types "''q0''" "''q''"
          "run fn_types build_calls (QFn_init ''bell'' bell_sig)"]
        add_edge_boundary_guard[of "''CX''" "''fin''" fn_types "''ctl''" "''q0''"
          "run fn_types build_calls (QFn_init ''bell'' bell_sig)"]
  by simp

text \<open>
  C7: a call that raises leaves the builder exactly as it was: the same nodes and the
  same edges, so the same counts, and any further call does on it what it would have
  done before.
\<close>

theorem failed_call_changes_nothing:
  assumes "fst (step reg c self) = Inl e"
  shows "snd (step reg c self) = self \<and>
         node_count (snd (step reg c self)) = node_count self \<and>
         edge_count (snd (step reg c self)) = edge_count self \<and>
         step reg c' (snd (step reg c self)) = step reg c' self"
  using assms
  by (cases c)
     (auto simp: add_node_def add_edge_def add_init_edge_def add_final_edge_def save_image_def
        dest: store_edge_Inl)

theorem failed_call_changes_nothing_witness:
  "fst (step measure_types (AddEdge ''M'' ''c'' ''H'' ''q'') measure_builder)
     = Inl (ValueError ''Type mismatch: Bit != Qubit'') \<and>
   snd (step measure_types (AddEdge ''M'' ''c'' ''H'' ''q'') measure_builder) = measure_builder \<and>
   fst (step measure_types (AddEdge ''H'' ''q'' ''M'' ''q'')
          (snd (step measure_types (AddEdge ''M'' ''c'' ''H'' ''q'') measure_builder))) = Inr ()"
proof -
  have f: "fst (step measure_types (AddEdge ''M'' ''c'' ''H'' ''q'') measure_builder)
             = Inl (ValueError ''Type mismatch: Bit != Qubit'')"
    by (simp add: measure_builder_def measure_types_def builder_defs)
  have g: "fst (step measure_types (AddEdge ''H'' ''q'' ''M'' ''q'') measure_builder) = Inr ()"
    by (simp add: measure_builder_def measure_types_def builder_defs)
  show ?thesis
    using f g failed_call_changes_nothing[OF f, of "AddEdge ''H'' ''q'' ''M'' ''q''"]
    by simp
qed

text \<open>
  C8: the seven builder calls of \<^verbatim>\<open>test\<close>, with the source's table and the signature
  of \<open>bell\<close>, all return normally; the graph then has the four nodes \<open>init\<close>, \<open>fin\<close>,
  \<open>H\<close>, \<open>CX\<close> and five edges, each of type \<open>Qubit\<close>.
\<close>

theorem two_gate_scenario:
  "outcomes fn_types build_calls (QFn_init ''bell'' bell_sig) = replicate 7 (Inr ()) \<and>
   node_names (run fn_types build_calls (QFn_init ''bell'' bell_sig))
     = [''init'', ''fin'', ''H'', ''CX''] \<and>
   node_count (run fn_types build_calls (QFn_init ''bell'' bell_sig)) = 4 \<and>
   edge_count (run fn_types build_calls (QFn_init ''bell'' bell_sig)) = 5 \<and>
   map datatype_attr (edges (G (run fn_types build_calls (QFn_init ''bell'' bell_sig))))
     = replicate 5 ''Qubit''"
  by (simp add: build_calls_def builder_defs eval_nat_numeral)

text \<open>
  C9: a new builder has no edge; after any call sequence the number of edges is the
  number of edge insertions that returned normally (an edge equal to one already there
  counts again); no call, failed calls and \<^verbatim>\<open>save_image\<close> included, makes the number of
  edges or of nodes smaller.
\<close>

theorem append_only:
  "edge_count (QFn_init nm sg) = 0 \<and>
   edge_count (run reg cs (QFn_init nm sg)) = edge_successes reg cs (QFn_init nm sg) \<and>
   edge_count (run reg cs self) = edge_count self + edge_successes reg cs self \<and>
   edge_count self \<le> edge_count (snd (step reg c self)) \<and>
   node_count self \<le> node_count (snd (step reg c self))"
proof -
  have z: "edge_count (QFn_init nm sg) = 0" by (simp add: edge_count_def QFn_init_edges)
  with run_edge_count[of reg cs "QFn_init nm sg"]
  have "edge_count (run reg cs (QFn_init nm sg)) = edge_successes reg cs (QFn_init nm sg)"
    by simp
  with z show ?thesis
    by (simp add: run_edge_count step_edge_count step_node_count)
qed

theorem append_only_witness:
  "edge_successes fn_types
     [AddNode ''H'' ''H_gate'' ''H'', AddNode ''CX'' ''CX_gate'' ''CX'',
      AddEdge ''H'' ''q'' ''CX'' ''ctl'', AddEdge ''H'' ''q'' ''CX'' ''nope'',
      AddEdge ''H'' ''q'' ''CX'' ''ctl'', SaveImage]
     (QFn_init ''bell'' bell_sig) = 2 \<and>
   edge_count (run fn_types
     [AddNode ''H'' ''H_gate'' ''H'', AddNode ''CX'' ''CX_gate'' ''CX'',
      AddEdge ''H'' ''q'' ''CX'' ''ctl'', AddEdge ''H'' ''q'' ''CX'' ''nope'',
      AddEdge ''H'' ''q'' ''CX'' ''ctl'', SaveImage]
     (QFn_init ''bell'' bell_sig)) = 2"
proof -
  have "edge_successes fn_types
     [AddNode ''H'' ''H_gate'' ''H'', AddNode ''CX'' ''CX_gate'' ''CX'',
      AddEdge ''H'' ''q'' ''CX'' ''ctl'', AddEdge ''H'' ''q'' ''CX'' ''nope'',
      AddEdge ''H'' ''q'' ''CX'' ''ctl'', SaveImage]
     (QFn_init ''bell'' bell_sig) = 2"
    by (simp add: builder_defs)
  then show ?thesis
    using append_only[of "''bell''" bell_sig fn_types
      "[AddNode ''H'' ''H_gate'' ''H'', AddNode ''CX'' ''CX_gate'' ''CX'',
        AddEdge ''H'' ''q'' ''CX'' ''ctl'', AddEdge ''H'' ''q'' ''CX'' ''nope'',
        AddEdge ''H'' ''q'' ''CX'' ''ctl'', SaveImage]"]
    by simp
qed

text \<open>
  C10: on a builder reached from a new one by any call sequence, an edge insertion
  that returns normally leaves the node dictionary as it was. In any builder, an
  insertion that names an operation endpoint that is not a node raises, so the store
  never gets to create the node.
\<close>

theorem edge_calls_keep_nodes:
  "(is_edge_call c \<and> fst (step reg c (run reg cs (QFn_init nm sg))) = Inr () \<longrightarrow>
      nodes (G (snd (step reg c (run reg cs (QFn_init nm sg)))))
        = nodes (G (run reg cs (QFn_init nm sg)))) \<and>
   (s \<notin> set (node_names self) \<or> t \<notin> set (node_names self) \<longrightarrow>
      isl (fst (add_edge reg s sp t tp self))) \<and>
   (t \<notin> set (node_names self) \<longrightarrow> isl (fst (add_init_edge reg sp t tp self))) \<and>
   (s \<notin> set (node_names self) \<longrightarrow> isl (fst (add_final_edge reg s sp tp self)))"
proof -
  have "{''init'', ''fin''} \<subseteq> fst ` set (nodes (G (run reg cs (QFn_init nm sg))))"
    using run_names[of "QFn_init nm sg" reg cs] by (simp add: QFn_init_names)
  then have "nodes (G (snd (step reg c (run reg cs (QFn_init nm sg)))))
        = nodes (G (run reg cs (QFn_init nm sg)))"
    if "is_edge_call c" "fst (step reg c (run reg cs (QFn_init nm sg))) = Inr ()"
    using that by (intro edge_call_nodes) simp_all
  then show ?thesis
    using edge_call_absent_endpoint(1)[of s self t reg sp tp]
      edge_call_absent_endpoint(2)[of t self reg sp tp]
      edge_call_absent_endpoint(3)[of s self reg sp tp]
    by (simp add: node_names_def)
qed

theorem edge_calls_keep_nodes_witness:
  "is_edge_call (AddInitEdge ''q0'' ''H'' ''q'') \<and>
   fst (step fn_types (AddInitEdge ''q0'' ''H'' ''q'')
          (run fn_types [AddNode ''H'' ''H_gate'' ''H''] (QFn_init ''bell'' bell_sig))) = Inr () \<and>
   nodes (G (snd (step fn_types (AddInitEdge ''q0'' ''H'' ''q'')
          (run fn_types [AddNode ''H'' ''H_gate'' ''H''] (QFn_init ''bell'' bell_sig)))))
     = nodes (G (run fn_types [AddNode ''H'' ''H_gate'' ''H''] (QFn_init ''bell'' bell_sig))) \<and>
   ''CX'' \<notin> set (node_names (run fn_types [AddNode ''H'' ''H_gate'' ''H''] (QFn_init ''bell'' bell_sig))) \<and>
   isl (fst (add_edge fn_types ''H'' ''q'' ''CX'' ''ctl''
          (run fn_types [AddNode ''H'' ''H_gate'' ''H''] (QFn_init ''bell'' bell_sig))))"
proof -
  have a: "fst (step fn_types (AddInitEdge ''q0'' ''H'' ''q'')
          (run fn_types [AddNode ''H'' ''H_gate'' ''H''] (QFn_init ''bell'' bell_sig))) = Inr ()"
    by (simp add: builder_defs)
  have b: "''CX'' \<notin> set (node_names (run fn_types [AddNode ''H'' ''H_gate'' ''H''] (QFn_init ''bell'' bell_sig)))"
    by (simp add: builder_defs)
  show ?thesis
    using a b edge_calls_keep_nodes[of "AddInitEdge ''q0'' ''H'' ''q''" fn_types
        "[AddNode ''H'' ''H_gate'' ''H'']" "''bell''" bell_sig "''H''"
        "run fn_types [AddNode ''H'' ''H_gate'' ''H''] (QFn_init ''bell'' bell_sig)" "''CX''"
        "''q''" "''ctl''"]
    by simp
qed

end
